theory Spec2Isabelle
  imports Main
begin

section \<open>Guard chains: django_conditions/conditions.py\<close>

subsection \<open>Exceptions, guard predicates, Python objects\<close>

text \<open>
  Modelled from the spec: the module \<^verbatim>\<open>django_conditions/exceptions.py\<close>, which declares
  the class \<^verbatim>\<open>ConditionFailed\<close>, is not among the sources. The spec describes it as the
  failure of a guard predicate "carrying the first failing predicate's reason". Every
  other exception a guard can raise (\<^verbatim>\<open>TypeError\<close>, \<^verbatim>\<open>ValueError\<close>, ...) is
  \<open>OtherError\<close> with the name of its class; \<^verbatim>\<open>except ConditionFailed\<close> catches the first
  constructor only.
\<close>

datatype exc = ConditionFailed string | OtherError string

text \<open>
  A guard is any Python callable \<^verbatim>\<open>func(instance, user)\<close>. It either returns a value or
  raises, and it may have side effects: the world \<open>'w\<close> (the attributes of the instance,
  the database, a log) is passed in and returned. \<open>Inl e\<close> is the raised exception,
  \<open>Inr v\<close> the returned value.
\<close>

type_synonym ('i, 'u, 'v, 'w) guard = "'i \<Rightarrow> 'u \<Rightarrow> 'w \<Rightarrow> (exc + 'v) \<times> 'w"

text \<open>
  What \<^verbatim>\<open>__get__\<close> needs of the object it receives is its truth value. Python tests
  \<^verbatim>\<open>__bool__\<close> when the class defines it, otherwise \<^verbatim>\<open>__len__() != 0\<close> when the class
  defines that, and otherwise the object is true. \<^verbatim>\<open>None\<close> is false.
\<close>

record 'a pyobject =
  dunder_bool :: "bool option"
  dunder_len :: "nat option"
  payload :: 'a

definition py_truth :: "'a pyobject option \<Rightarrow> bool" where
  "py_truth x =
     (case x of
        None \<Rightarrow> False
      | Some ob \<Rightarrow>
          (case dunder_bool ob of
             Some b \<Rightarrow> b
           | None \<Rightarrow> (case dunder_len ob of Some n \<Rightarrow> n \<noteq> 0 | None \<Rightarrow> True)))"

subsection \<open>The store of list objects\<close>

text \<open>
  \<^verbatim>\<open>class Conditions(list)\<close>: a chain is a Python list object, shared by reference and
  mutable through the methods it inherits. The store holds the list objects; a reference
  is an index into it. \<open>NonList\<close> stands for any object that is not a list (and for a
  reference outside the store, which Python cannot produce).
\<close>

type_synonym ref = nat

datatype 'g obj = PyList "'g list" | Conditions "'g list" | NonList

type_synonym 'g heap = "'g obj list"

definition deref :: "'g heap \<Rightarrow> ref \<Rightarrow> 'g obj" where
  "deref h r = (if r < length h then h ! r else NonList)"

definition alloc :: "'g heap \<Rightarrow> 'g obj \<Rightarrow> ref \<times> 'g heap" where
  "alloc h ob = (length h, h @ [ob])"

fun list_items :: "'g obj \<Rightarrow> 'g list option" where
  "list_items (PyList xs) = Some xs"
| "list_items (Conditions xs) = Some xs"
| "list_items NonList = None"

text \<open>
  \<^verbatim>\<open>list.__add__(self, other)\<close>, called as \<^verbatim>\<open>super().__add__(other)\<close>: a new plain list
  when \<open>other\<close> is a list or an instance of a subclass; otherwise it raises \<^verbatim>\<open>TypeError\<close>
  ("can only concatenate list to list") and allocates nothing.
\<close>

definition list_add :: "'g heap \<Rightarrow> ref \<Rightarrow> ref \<Rightarrow> (exc + ref) \<times> 'g heap" where
  "list_add h self other =
     (case (list_items (deref h self), list_items (deref h other)) of
        (Some xs, Some ys) \<Rightarrow> (case alloc h (PyList (xs @ ys)) of (r, h') \<Rightarrow> (Inr r, h'))
      | _ \<Rightarrow> (Inl (OtherError ''TypeError''), h))"

text \<open>
  \<^verbatim>\<open>Conditions(iterable)\<close>: the inherited list constructor copies the items of its
  argument into a new \<^verbatim>\<open>Conditions\<close> object; an argument that is not iterable is a
  \<^verbatim>\<open>TypeError\<close>.
\<close>

definition Conditions_new :: "'g heap \<Rightarrow> ref \<Rightarrow> (exc + ref) \<times> 'g heap" where
  "Conditions_new h src =
     (case list_items (deref h src) of
        None \<Rightarrow> (Inl (OtherError ''TypeError''), h)
      | Some xs \<Rightarrow> (case alloc h (Conditions xs) of (r, h') \<Rightarrow> (Inr r, h')))"

text \<open>
  \<^verbatim>\<open>list.append(self, x)\<close>, one of the methods a \<^verbatim>\<open>Conditions\<close> object inherits from
  \<^verbatim>\<open>list\<close> (with \<^verbatim>\<open>extend\<close>, \<^verbatim>\<open>insert\<close>, \<^verbatim>\<open>pop\<close>, \<^verbatim>\<open>__iadd__\<close>, \<^verbatim>\<open>__setitem__\<close>, ...):
  it changes the object in place and returns \<^verbatim>\<open>None\<close>.
\<close>

definition list_append :: "'g heap \<Rightarrow> ref \<Rightarrow> 'g \<Rightarrow> (exc + unit) \<times> 'g heap" where
  "list_append h self x =
     (case deref h self of
        PyList xs \<Rightarrow> (Inr (), h[self := PyList (xs @ [x])])
      | Conditions xs \<Rightarrow> (Inr (), h[self := Conditions (xs @ [x])])
      | NonList \<Rightarrow> (Inl (OtherError ''AttributeError''), h))"

subsection \<open>class Conditions\<close>

text \<open>
  \<^verbatim>\<open>def __add__(self, other): return Conditions(super().__add__(other))\<close>: an exception
  of the inner call leaves the method; otherwise the temporary list is copied into a new
  \<^verbatim>\<open>Conditions\<close>.
\<close>

definition Conditions_add :: "'g heap \<Rightarrow> ref \<Rightarrow> ref \<Rightarrow> (exc + ref) \<times> 'g heap" where
  "Conditions_add h self other =
     (case list_add h self other of
        (Inl e, h') \<Rightarrow> (Inl e, h')
      | (Inr tmp, h') \<Rightarrow> Conditions_new h' tmp)"

text \<open>
  \<^verbatim>\<open>BoundConditions.__init__\<close> stores its two arguments; the chain is held by reference.
\<close>

record 'i BoundConditions =
  conditions :: ref
  boundinstance :: 'i

definition BoundConditions_init :: "ref \<Rightarrow> 'i \<Rightarrow> 'i BoundConditions" where
  "BoundConditions_init c inst = \<lparr>conditions = c, boundinstance = inst\<rparr>"

text \<open>
  \<^verbatim>\<open>def __get__(self, instance, cls)\<close>: \<^verbatim>\<open>if instance: return BoundConditions(self, instance)\<close>,
  otherwise \<^verbatim>\<open>return self\<close>. The result is the chain itself or a new bound chain.
\<close>

datatype 'i descriptor_value = Unbound ref | Bound "'i BoundConditions"

definition Conditions_get ::
  "ref \<Rightarrow> 'a pyobject option \<Rightarrow> 'a pyobject descriptor_value" where
  "Conditions_get self inst =
     (if py_truth inst
      then (case inst of Some ob \<Rightarrow> Bound (BoundConditions_init self ob) | None \<Rightarrow> Unbound self)
      else Unbound self)"

text \<open>
  \<^verbatim>\<open>def __call__(self, instance, user): for func in self: func(instance, user)\<close>.
  The value a guard returns is dropped; an exception leaves the loop. The world of a
  guard does not contain the store of chains: a guard that changes the very list being
  iterated is outside this model.
\<close>

fun Conditions_call ::
  "('i, 'u, 'v, 'w) guard list \<Rightarrow> 'i \<Rightarrow> 'u \<Rightarrow> 'w \<Rightarrow> (exc + unit) \<times> 'w" where
  "Conditions_call [] inst user w = (Inr (), w)"
| "Conditions_call (func # rest) inst user w =
     (case func inst user w of
        (Inl e, w') \<Rightarrow> (Inl e, w')
      | (Inr v, w') \<Rightarrow> Conditions_call rest inst user w')"

text \<open>
  \<^verbatim>\<open>def as_bool(self, instance, user)\<close>: \<^verbatim>\<open>try: self(instance, user)\<close>,
  \<^verbatim>\<open>except ConditionFailed: return False\<close>, then \<^verbatim>\<open>return True\<close>.
\<close>

definition Conditions_as_bool ::
  "('i, 'u, 'v, 'w) guard list \<Rightarrow> 'i \<Rightarrow> 'u \<Rightarrow> 'w \<Rightarrow> (exc + bool) \<times> 'w" where
  "Conditions_as_bool self inst user w =
     (case Conditions_call self inst user w of
        (Inl (ConditionFailed reason), w') \<Rightarrow> (Inr False, w')
      | (Inl (OtherError x), w') \<Rightarrow> (Inl (OtherError x), w')
      | (Inr u, w') \<Rightarrow> (Inr True, w'))"

text \<open>
  Calling an object through a reference, \<^verbatim>\<open>obj(instance, user)\<close> and
  \<^verbatim>\<open>obj.as_bool(instance, user)\<close>: the methods above when the object is a
  \<^verbatim>\<open>Conditions\<close>; a plain list is not callable and has no attribute \<^verbatim>\<open>as_bool\<close>.
\<close>

definition py_call ::
  "('i, 'u, 'v, 'w) guard heap \<Rightarrow> ref \<Rightarrow> 'i \<Rightarrow> 'u \<Rightarrow> 'w \<Rightarrow> (exc + unit) \<times> 'w" where
  "py_call h r inst user w =
     (case deref h r of
        Conditions gs \<Rightarrow> Conditions_call gs inst user w
      | PyList gs \<Rightarrow> (Inl (OtherError ''TypeError''), w)
      | NonList \<Rightarrow> (Inl (OtherError ''TypeError''), w))"

definition py_as_bool ::
  "('i, 'u, 'v, 'w) guard heap \<Rightarrow> ref \<Rightarrow> 'i \<Rightarrow> 'u \<Rightarrow> 'w \<Rightarrow> (exc + bool) \<times> 'w" where
  "py_as_bool h r inst user w =
     (case deref h r of
        Conditions gs \<Rightarrow> Conditions_as_bool gs inst user w
      | PyList gs \<Rightarrow> (Inl (OtherError ''AttributeError''), w)
      | NonList \<Rightarrow> (Inl (OtherError ''AttributeError''), w))"

subsection \<open>class BoundConditions\<close>

text \<open>
  \<^verbatim>\<open>def __call__(self, user): self.conditions(self.instance, user)\<close> and
  \<^verbatim>\<open>def as_bool(self, user): return self.conditions.as_bool(self.instance, user)\<close>.
\<close>

definition BoundConditions_call ::
  "('i, 'u, 'v, 'w) guard heap \<Rightarrow> 'i BoundConditions \<Rightarrow> 'u \<Rightarrow> 'w \<Rightarrow> (exc + unit) \<times> 'w" where
  "BoundConditions_call h self user w =
     py_call h (conditions self) (boundinstance self) user w"

definition BoundConditions_as_bool ::
  "('i, 'u, 'v, 'w) guard heap \<Rightarrow> 'i BoundConditions \<Rightarrow> 'u \<Rightarrow> 'w \<Rightarrow> (exc + bool) \<times> 'w" where
  "BoundConditions_as_bool h self user w =
     py_as_bool h (conditions self) (boundinstance self) user w"

subsection \<open>What "evaluated in declaration order" means\<close>

text \<open>
  \<open>effects gs inst user w\<close> is the world after the guards \<open>gs\<close> have run one after the
  other from \<open>w\<close>; \<open>outcome_at c inst user w j\<close> is what the \<open>j\<close>-th guard of \<open>c\<close> answers
  when it runs after the \<open>j\<close> guards declared before it.
\<close>

fun effects :: "('i, 'u, 'v, 'w) guard list \<Rightarrow> 'i \<Rightarrow> 'u \<Rightarrow> 'w \<Rightarrow> 'w" where
  "effects [] inst user w = w"
| "effects (g # gs) inst user w = effects gs inst user (snd (g inst user w))"

definition outcome_at ::
  "('i, 'u, 'v, 'w) guard list \<Rightarrow> 'i \<Rightarrow> 'u \<Rightarrow> 'w \<Rightarrow> nat \<Rightarrow> exc + 'v" where
  "outcome_at c inst user w j = fst ((c ! j) inst user (effects (take j c) inst user w))"

fun passes :: "exc + 'v \<Rightarrow> bool" where
  "passes (Inl e) = False"
| "passes (Inr v) = True"

text \<open>
  Guards for the examples: each appends its number to a log, the world, and then returns
  \<^verbatim>\<open>None\<close>, raises \<^verbatim>\<open>ConditionFailed(reason)\<close> or raises another exception.
\<close>

definition log_pass :: "nat \<Rightarrow> (unit, unit, unit, nat list) guard" where
  "log_pass n inst user w = (Inr (), w @ [n])"

definition log_fail :: "nat \<Rightarrow> string \<Rightarrow> (unit, unit, unit, nat list) guard" where
  "log_fail n reason inst user w = (Inl (ConditionFailed reason), w @ [n])"

definition log_raise :: "nat \<Rightarrow> string \<Rightarrow> (unit, unit, unit, nat list) guard" where
  "log_raise n x inst user w = (Inl (OtherError x), w @ [n])"

section \<open>The transition engine\<close>

text \<open>
  The tests import \<^verbatim>\<open>FSMField\<close>, \<^verbatim>\<open>FSMModelMixin\<close> and \<^verbatim>\<open>transition\<close> from the module
  \<^verbatim>\<open>fsm\<close> of the package, which is not among the sources. The definitions of this
  section follow the specification of that module, paragraph by paragraph; the guard
  chain they call is the one of the source above.
\<close>

type_synonym state = string

text \<open>
  Modelled from the spec: the field declaration of the absent module \<^verbatim>\<open>fsm\<close>
  (\<^verbatim>\<open>FSMField(default='new', protected=True)\<close> in the tests). "A named field whose value
  may only move between a fixed set of states"; "if the field is declared protected,
  direct write to the state value outside of a transition must fail".
\<close>

record fsm_field =
  fname :: string
  default_state :: state
  protected :: bool

text \<open>
  Modelled from the spec: the storage slot of the absent module \<^verbatim>\<open>fsm\<close>. The owning
  instance maps field names to stored states; "reading the field before any transition
  returns exactly the declared initial state".
\<close>

type_synonym fsm_instance = "string \<rightharpoonup> state"

definition get_state :: "fsm_field \<Rightarrow> fsm_instance \<Rightarrow> state" where
  "get_state fld inst = (case inst (fname fld) of Some s \<Rightarrow> s | None \<Rightarrow> default_state fld)"

text \<open>
  Modelled from the spec: the error taxonomy of the absent module \<^verbatim>\<open>fsm\<close> (section 7):
  \<^verbatim>\<open>InvalidTransition\<close>, \<^verbatim>\<open>PermissionDenied\<close>, \<^verbatim>\<open>ConditionFailed\<close> (here \<open>GuardChainFailed\<close>
  with what the chain raised), \<^verbatim>\<open>ActionFailed\<close> (with what the action raised) and
  \<^verbatim>\<open>ProtectedWriteForbidden\<close>.
\<close>

datatype fsm_error =
    InvalidTransition
  | PermissionDenied
  | GuardChainFailed exc
  | ActionFailed exc
  | ProtectedWriteForbidden

text \<open>
  Modelled from the spec: the two write paths to the slot, absent with the module
  \<^verbatim>\<open>fsm\<close>. \<open>engine_set\<close> is the state assignment of a transition attempt itself;
  \<open>direct_set\<close> is every other write: "when a field is declared protected, any attempt to
  set its value other than through attempt's own internal state-assignment step must
  fail with a direct write forbidden error".
\<close>

definition engine_set :: "fsm_field \<Rightarrow> fsm_instance \<Rightarrow> state \<Rightarrow> fsm_instance" where
  "engine_set fld inst s = inst(fname fld \<mapsto> s)"

definition direct_set ::
  "fsm_field \<Rightarrow> fsm_instance \<Rightarrow> state \<Rightarrow> (fsm_error + unit) \<times> fsm_instance" where
  "direct_set fld inst s =
     (if protected fld then (Inl ProtectedWriteForbidden, inst)
      else (Inr (), inst(fname fld \<mapsto> s)))"

text \<open>
  Modelled from the spec: the transition descriptor of the absent module \<^verbatim>\<open>fsm\<close>
  (the arguments of the decorator \<^verbatim>\<open>transition\<close> in the tests): "field name, set of
  acceptable source states (or wildcard any), target state, action, condition chain,
  optional permission identifier, optional error-target state". The action takes the
  instance and "either completes or raises an error"; guards are pure, so their world
  is \<open>unit\<close>.
\<close>

datatype sources = AnyState | States "state list"

record ('u, 'v, 'r) transition =
  t_field :: string
  t_name :: string
  t_source :: sources
  t_target :: state
  t_action :: "fsm_instance \<Rightarrow> exc + 'r"
  t_conditions :: "(fsm_instance, 'u, 'v, unit) guard list"
  t_permission :: "string option"
  t_on_error :: "state option"

text \<open>
  Modelled from the spec: \<^verbatim>\<open>find(field, currentState, name)\<close> of the absent registry:
  "returns the matching descriptor or signals no such transition if none of the
  registered descriptors for that field accept the current state under that name".
\<close>

definition accepts :: "('u, 'v, 'r) transition \<Rightarrow> fsm_field \<Rightarrow> state \<Rightarrow> string \<Rightarrow> bool" where
  "accepts d fld s nm =
     (t_field d = fname fld \<and> t_name d = nm \<and>
      (case t_source d of AnyState \<Rightarrow> True | States ss \<Rightarrow> s \<in> set ss))"

definition find_transition ::
  "('u, 'v, 'r) transition list \<Rightarrow> fsm_field \<Rightarrow> state \<Rightarrow> string \<Rightarrow> ('u, 'v, 'r) transition option" where
  "find_transition reg fld s nm = List.find (\<lambda>d. accepts d fld s nm) reg"

text \<open>
  Modelled from the spec: the permission gate of the absent module. \<open>check\<close> is the
  external authorization collaborator; "if no permission identifier is declared on the
  descriptor, the gate is skipped (always passes)".
\<close>

definition permission_gate ::
  "('u \<Rightarrow> fsm_instance \<Rightarrow> string \<Rightarrow> bool) \<Rightarrow> ('u, 'v, 'r) transition \<Rightarrow> 'u \<Rightarrow> fsm_instance \<Rightarrow> bool" where
  "permission_gate check d actor inst =
     (case t_permission d of None \<Rightarrow> True | Some p \<Rightarrow> check actor inst p)"

text \<open>
  Modelled from the spec: \<^verbatim>\<open>attempt(field, instance, name, actor)\<close> of the absent module
  \<^verbatim>\<open>fsm\<close>, steps 1 to 6 of section 4.2: resolve the current state; look the descriptor
  up; the permission gate; the condition chain; the action and the commit of the target
  state; on a raising action the commit of the error-target state, when one is declared,
  and the failure re-signalled.
\<close>

definition attempt ::
  "('u \<Rightarrow> fsm_instance \<Rightarrow> string \<Rightarrow> bool) \<Rightarrow> ('u, 'v, 'r) transition list \<Rightarrow> fsm_field \<Rightarrow>
   fsm_instance \<Rightarrow> string \<Rightarrow> 'u \<Rightarrow> (fsm_error + 'r) \<times> fsm_instance" where
  "attempt check reg fld inst nm actor =
     (case find_transition reg fld (get_state fld inst) nm of
        None \<Rightarrow> (Inl InvalidTransition, inst)
      | Some d \<Rightarrow>
          if \<not> permission_gate check d actor inst then (Inl PermissionDenied, inst)
          else
            (case fst (Conditions_call (t_conditions d) inst actor ()) of
               Inl e \<Rightarrow> (Inl (GuardChainFailed e), inst)
             | Inr u \<Rightarrow>
                 (case t_action d inst of
                    Inr r \<Rightarrow> (Inr r, engine_set fld inst (t_target d))
                  | Inl x \<Rightarrow>
                      (case t_on_error d of
                         Some es \<Rightarrow> (Inl (ActionFailed x), engine_set fld inst es)
                       | None \<Rightarrow> (Inl (ActionFailed x), inst)))))"

subsection \<open>Guards, fields and transitions of the examples\<close>

text \<open>
  Two guards without side effects, as the specification asks of a guard predicate, and
  the models of the two test files: the protected field \<^verbatim>\<open>status\<close> with its transition
  \<^verbatim>\<open>publish\<close> (tests/test_protected_fields.py), and the field \<^verbatim>\<open>state\<close> whose transition
  \<^verbatim>\<open>publish\<close> declares \<^verbatim>\<open>on_error="failed"\<close> and a permission
  (tests/testapp/tests/test_object_permissions.py), here with an action that raises.
\<close>

definition guard_allow :: "('i, 'u, unit, 'w) guard" where
  "guard_allow inst user w = (Inr (), w)"

definition guard_deny :: "string \<Rightarrow> ('i, 'u, unit, 'w) guard" where
  "guard_deny reason inst user w = (Inl (ConditionFailed reason), w)"

definition status_field :: fsm_field where
  "status_field = \<lparr>fname = ''status'', default_state = ''new'', protected = True\<rparr>"

definition state_field :: fsm_field where
  "state_field = \<lparr>fname = ''state'', default_state = ''new'', protected = False\<rparr>"

definition action_pass :: "fsm_instance \<Rightarrow> exc + unit" where
  "action_pass inst = Inr ()"

definition action_raise :: "fsm_instance \<Rightarrow> exc + unit" where
  "action_raise inst = Inl (OtherError ''RuntimeError'')"

definition publish_protected :: "(unit, unit, unit) transition" where
  "publish_protected =
     \<lparr>t_field = ''status'', t_name = ''publish'', t_source = States [''new''],
      t_target = ''published'', t_action = action_pass, t_conditions = [],
      t_permission = None, t_on_error = None\<rparr>"

definition publish_failing :: "(unit, unit, unit) transition" where
  "publish_failing =
     \<lparr>t_field = ''state'', t_name = ''publish'', t_source = States [''new''],
      t_target = ''published'', t_action = action_raise, t_conditions = [guard_allow],
      t_permission = Some ''testapp.can_publish_objectpermissiontestmodel'',
      t_on_error = Some ''failed''\<rparr>"

definition grant_all :: "unit \<Rightarrow> fsm_instance \<Rightarrow> string \<Rightarrow> bool" where
  "grant_all actor inst perm = True"

section \<open>Lemmas on the guard chain and the store\<close>

lemma outcome_at_0: "outcome_at (g # gs) inst user w 0 = fst (g inst user w)"
  by (simp add: outcome_at_def)

lemma outcome_at_Suc:
  "outcome_at (g # gs) inst user w (Suc j) = outcome_at gs inst user (snd (g inst user w)) j"
  by (simp add: outcome_at_def)

lemma call_all_pass:
  "(\<forall>j<length c. passes (outcome_at c inst user w j)) \<Longrightarrow>
   Conditions_call c inst user w = (Inr (), effects c inst user w)"
proof (induction c arbitrary: w)
  case Nil
  show ?case by simp
next
  case (Cons g gs)
  from Cons.prems have "passes (outcome_at (g # gs) inst user w 0)" by blast
  then obtain v w' where g: "g inst user w = (Inr v, w')"
    by (cases "g inst user w"; cases "fst (g inst user w)") (auto simp: outcome_at_0)
  have "\<forall>j<length gs. passes (outcome_at gs inst user w' j)"
  proof (intro allI impI)
    fix j assume "j < length gs"
    then have "passes (outcome_at (g # gs) inst user w (Suc j))" using Cons.prems by simp
    then show "passes (outcome_at gs inst user w' j)" by (simp add: outcome_at_Suc g)
  qed
  then have "Conditions_call gs inst user w' = (Inr (), effects gs inst user w')"
    by (rule Cons.IH)
  then show ?case by (simp add: g)
qed

lemma call_first_failure:
  "k < length c \<Longrightarrow> (\<forall>j<k. passes (outcome_at c inst user w j)) \<Longrightarrow>
   outcome_at c inst user w k = Inl e \<Longrightarrow>
   Conditions_call c inst user w = (Inl e, effects (take (Suc k) c) inst user w)"
proof (induction c arbitrary: w k)
  case Nil
  then show ?case by simp
next
  case (Cons g gs)
  show ?case
  proof (cases k)
    case 0
    with Cons.prems(3) have "fst (g inst user w) = Inl e" by (simp add: outcome_at_0)
    then show ?thesis using 0 by (cases "g inst user w") simp
  next
    case (Suc k')
    from Cons.prems(2) Suc have "passes (outcome_at (g # gs) inst user w 0)" by blast
    then obtain v w' where g: "g inst user w = (Inr v, w')"
      by (cases "g inst user w"; cases "fst (g inst user w)") (auto simp: outcome_at_0)
    have k': "k' < length gs" using Cons.prems(1) Suc by simp
    have pre: "\<forall>j<k'. passes (outcome_at gs inst user w' j)"
    proof (intro allI impI)
      fix j assume "j < k'"
      then have "passes (outcome_at (g # gs) inst user w (Suc j))"
        using Cons.prems(2) Suc by simp
      then show "passes (outcome_at gs inst user w' j)" by (simp add: outcome_at_Suc g)
    qed
    have at: "outcome_at gs inst user w' k' = Inl e"
      using Cons.prems(3) Suc by (simp add: outcome_at_Suc g)
    have "Conditions_call gs inst user w' = (Inl e, effects (take (Suc k') gs) inst user w')"
      using k' pre at by (rule Cons.IH)
    then show ?thesis using Suc by (simp add: g)
  qed
qed

lemma first_failure_or_all_pass:
  "(\<exists>k e. k < length c \<and> (\<forall>j<k. passes (outcome_at c inst user w j)) \<and>
      outcome_at c inst user w k = Inl e) \<or>
   (\<forall>j<length c. passes (outcome_at c inst user w j))"
proof (cases "\<forall>j<length c. passes (outcome_at c inst user w j)")
  case True then show ?thesis by blast
next
  case False
  define k where "k = (LEAST j. j < length c \<and> \<not> passes (outcome_at c inst user w j))"
  from False have ex: "\<exists>j. j < length c \<and> \<not> passes (outcome_at c inst user w j)" by blast
  then have kk: "k < length c \<and> \<not> passes (outcome_at c inst user w k)"
    unfolding k_def by (rule LeastI_ex)
  have "\<forall>j<k. passes (outcome_at c inst user w j)"
  proof (intro allI impI)
    fix j assume jk: "j < k"
    show "passes (outcome_at c inst user w j)"
    proof (rule ccontr)
      assume "\<not> passes (outcome_at c inst user w j)"
      with jk kk have "j < length c \<and> \<not> passes (outcome_at c inst user w j)" by simp
      then have "k \<le> j" unfolding k_def by (rule Least_le)
      with jk show False by simp
    qed
  qed
  moreover obtain e where "outcome_at c inst user w k = Inl e"
    using kk by (cases "outcome_at c inst user w k") auto
  ultimately show ?thesis using kk by blast
qed

text \<open>The converse directions: what the result of a call says about the guards.\<close>

lemma call_ok_iff:
  "(\<exists>w'. Conditions_call c inst user w = (Inr (), w')) \<longleftrightarrow>
   (\<forall>j<length c. passes (outcome_at c inst user w j))"
proof
  assume ok: "\<exists>w'. Conditions_call c inst user w = (Inr (), w')"
  show "\<forall>j<length c. passes (outcome_at c inst user w j)"
  proof (rule ccontr)
    assume "\<not> (\<forall>j<length c. passes (outcome_at c inst user w j))"
    with first_failure_or_all_pass [of c inst user w]
    obtain k e where "k < length c" "\<forall>j<k. passes (outcome_at c inst user w j)"
      "outcome_at c inst user w k = Inl e" by blast
    then have "Conditions_call c inst user w = (Inl e, effects (take (Suc k) c) inst user w)"
      by (rule call_first_failure)
    with ok show False by simp
  qed
next
  assume "\<forall>j<length c. passes (outcome_at c inst user w j)"
  then have "Conditions_call c inst user w = (Inr (), effects c inst user w)"
    by (rule call_all_pass)
  then show "\<exists>w'. Conditions_call c inst user w = (Inr (), w')" ..
qed

lemma call_raises_iff:
  "(\<exists>w'. Conditions_call c inst user w = (Inl e, w')) \<longleftrightarrow>
   (\<exists>k<length c. (\<forall>j<k. passes (outcome_at c inst user w j)) \<and>
      outcome_at c inst user w k = Inl e)"
proof
  assume bad: "\<exists>w'. Conditions_call c inst user w = (Inl e, w')"
  from first_failure_or_all_pass [of c inst user w]
  show "\<exists>k<length c. (\<forall>j<k. passes (outcome_at c inst user w j)) \<and>
      outcome_at c inst user w k = Inl e"
  proof
    assume "\<exists>k e. k < length c \<and> (\<forall>j<k. passes (outcome_at c inst user w j)) \<and>
      outcome_at c inst user w k = Inl e"
    then obtain k e' where k: "k < length c" "\<forall>j<k. passes (outcome_at c inst user w j)"
      "outcome_at c inst user w k = Inl e'" by blast
    then have "Conditions_call c inst user w = (Inl e', effects (take (Suc k) c) inst user w)"
      by (rule call_first_failure)
    with bad have "e' = e" by auto
    with k show ?thesis by blast
  next
    assume "\<forall>j<length c. passes (outcome_at c inst user w j)"
    then have "Conditions_call c inst user w = (Inr (), effects c inst user w)"
      by (rule call_all_pass)
    with bad show ?thesis by simp
  qed
next
  assume "\<exists>k<length c. (\<forall>j<k. passes (outcome_at c inst user w j)) \<and>
      outcome_at c inst user w k = Inl e"
  then obtain k where "k < length c" "\<forall>j<k. passes (outcome_at c inst user w j)"
    "outcome_at c inst user w k = Inl e" by blast
  then have "Conditions_call c inst user w = (Inl e, effects (take (Suc k) c) inst user w)"
    by (rule call_first_failure)
  then show "\<exists>w'. Conditions_call c inst user w = (Inl e, w')" ..
qed

lemma call_pure:
  "(\<forall>g\<in>set c. \<forall>w. snd (g inst user w) = w) \<Longrightarrow> snd (Conditions_call c inst user w) = w"
proof (induction c arbitrary: w)
  case Nil show ?case by simp
next
  case (Cons g gs)
  then have g: "snd (g inst user w) = w" by simp
  show ?case
  proof (cases "g inst user w")
    case (Pair r w')
    with g have [simp]: "w' = w" by simp
    show ?thesis using Cons Pair by (cases r) auto
  qed
qed

lemma as_bool_world:
  "snd (Conditions_as_bool c inst user w) = snd (Conditions_call c inst user w)"
  unfolding Conditions_as_bool_def
  by (cases "Conditions_call c inst user w") (auto split: sum.splits exc.splits)

lemma deref_alloc_new: "deref (h @ [ob]) (length h) = ob"
  by (simp add: deref_def)

lemma list_items_valid: "list_items (deref h r) = Some xs \<Longrightarrow> r < length h"
  by (cases "r < length h") (simp_all add: deref_def)

lemma Conditions_add_result:
  "list_items (deref h a) = Some xs \<Longrightarrow> list_items (deref h b) = Some ys \<Longrightarrow>
   Conditions_add h a b =
     (Inr (Suc (length h)), h @ [PyList (xs @ ys), Conditions (xs @ ys)])"
proof -
  assume a: "list_items (deref h a) = Some xs" and b: "list_items (deref h b) = Some ys"
  have tmp: "list_add h a b = (Inr (length h), h @ [PyList (xs @ ys)])"
    by (simp add: list_add_def alloc_def a b)
  have "Conditions_new (h @ [PyList (xs @ ys)]) (length h) =
     (Inr (Suc (length h)), (h @ [PyList (xs @ ys)]) @ [Conditions (xs @ ys)])"
    by (simp add: Conditions_new_def alloc_def deref_alloc_new)
  with tmp show ?thesis by (simp add: Conditions_add_def)
qed

lemma Conditions_add_error:
  "list_items (deref h a) = None \<or> list_items (deref h b) = None \<Longrightarrow>
   Conditions_add h a b = (Inl (OtherError ''TypeError''), h)"
  by (auto simp: Conditions_add_def list_add_def Conditions_new_def split: option.splits)

lemma deref_append2_old: "r < length h \<Longrightarrow> deref (h @ [x, y]) r = deref h r"
  by (simp add: deref_def nth_append)

lemma deref_append2_new: "deref (h @ [x, y]) (Suc (length h)) = y"
  by (simp add: deref_def nth_append)

lemma Conditions_get_class: "Conditions_get c None = Unbound c"
  by (simp add: Conditions_get_def py_truth_def)

lemma Conditions_get_true_instance:
  "py_truth (Some ob) \<Longrightarrow>
   Conditions_get c (Some ob) = Bound \<lparr>conditions = c, boundinstance = ob\<rparr>"
  by (simp add: Conditions_get_def BoundConditions_init_def)

section \<open>The claims on the guard chain\<close>

text \<open>
  Claim C1. Calling a chain runs its guards in declaration order and stops at the first
  one that raises. If the guard at position \<open>k\<close> raises \<open>e\<close> and the guards before it
  pass, the call raises \<open>e\<close> and the world is the one left by the guards at positions
  \<open>0\<close> to \<open>k\<close> run in order: no later guard has run. If every guard passes, the call
  returns normally after all of them have run. One of the two cases always holds.
\<close>

theorem Conditions_call_stops_at_first_failure:
  "(k < length c \<and> (\<forall>j<k. passes (outcome_at c inst user w j)) \<and>
      outcome_at c inst user w k = Inl e
    \<longrightarrow> Conditions_call c inst user w = (Inl e, effects (take (Suc k) c) inst user w)) \<and>
   ((\<forall>j<length c. passes (outcome_at c inst user w j))
    \<longrightarrow> Conditions_call c inst user w = (Inr (), effects c inst user w)) \<and>
   ((\<exists>k e. k < length c \<and> (\<forall>j<k. passes (outcome_at c inst user w j)) \<and>
        outcome_at c inst user w k = Inl e) \<or>
    (\<forall>j<length c. passes (outcome_at c inst user w j)))"
proof (intro conjI impI)
  assume "k < length c \<and> (\<forall>j<k. passes (outcome_at c inst user w j)) \<and>
      outcome_at c inst user w k = Inl e"
  then show "Conditions_call c inst user w = (Inl e, effects (take (Suc k) c) inst user w)"
    by (simp add: call_first_failure)
next
  assume "\<forall>j<length c. passes (outcome_at c inst user w j)"
  then show "Conditions_call c inst user w = (Inr (), effects c inst user w)"
    by (rule call_all_pass)
next
  show "(\<exists>k e. k < length c \<and> (\<forall>j<k. passes (outcome_at c inst user w j)) \<and>
        outcome_at c inst user w k = Inl e) \<or>
    (\<forall>j<length c. passes (outcome_at c inst user w j))"
    by (rule first_failure_or_all_pass)
qed

theorem Conditions_call_stops_at_first_failure_witness:
  "Conditions_call [log_pass 1, log_fail 2 ''not owner'', log_fail 3 ''locked'', log_pass 4]
     () () [] = (Inl (ConditionFailed ''not owner''), [1, 2]) \<and>
   Conditions_call [log_pass 1, log_pass 2, log_pass 3] () () [] = (Inr (), [1, 2, 3])"
proof -
  let ?c = "[log_pass 1, log_fail 2 ''not owner'', log_fail 3 ''locked'', log_pass 4]"
  let ?d = "[log_pass 1, log_pass 2, log_pass 3]"
  have len: "Suc 0 < length ?c" by simp
  have before: "\<forall>j<Suc 0. passes (outcome_at ?c () () [] j)"
    by (simp add: outcome_at_def log_pass_def)
  have at: "outcome_at ?c () () [] (Suc 0) = Inl (ConditionFailed ''not owner'')"
    by (simp add: outcome_at_def log_pass_def log_fail_def)
  have eff: "effects (take (Suc (Suc 0)) ?c) () () [] = [1, 2]"
    by (simp add: log_pass_def log_fail_def)
  have all: "\<forall>j<length ?d. passes (outcome_at ?d () () [] j)"
    by (simp add: outcome_at_def log_pass_def less_Suc_eq)
  have eff': "effects ?d () () [] = [1, 2, 3]"
    by (simp add: log_pass_def)
  from Conditions_call_stops_at_first_failure
    [of "Suc 0" ?c "()" "()" "[]" "ConditionFailed ''not owner''"] len before at
  have first: "Conditions_call ?c () () [] =
      (Inl (ConditionFailed ''not owner''), effects (take (Suc (Suc 0)) ?c) () () [])"
    by blast
  from Conditions_call_stops_at_first_failure [of 0 ?d "()" "()" "[]" "OtherError []"] all
  have second: "Conditions_call ?d () () [] = (Inr (), effects ?d () () [])"
    by blast
  show ?thesis using first second eff eff' by simp
qed

text \<open>
  Claim C2. For two chains at the references \<open>a\<close> and \<open>b\<close>, \<^verbatim>\<open>a + b\<close> returns a
  reference \<open>r\<close> that the store did not hold before, to a \<^verbatim>\<open>Conditions\<close> object whose guards
  are those of \<open>a\<close> followed by those of \<open>b\<close>, and calling it is calling that sequence;
  the objects at \<open>a\<close> and \<open>b\<close> are as they were.
\<close>

theorem Conditions_add_concatenates:
  "deref h a = Conditions xs \<Longrightarrow> deref h b = Conditions ys \<Longrightarrow>
   \<exists>r h'. Conditions_add h a b = (Inr r, h') \<and>
     length h \<le> r \<and> r \<noteq> a \<and> r \<noteq> b \<and>
     deref h' r = Conditions (xs @ ys) \<and>
     py_call h' r inst user w = Conditions_call (xs @ ys) inst user w \<and>
     deref h' a = Conditions xs \<and> deref h' b = Conditions ys"
proof -
  assume a: "deref h a = Conditions xs" and b: "deref h b = Conditions ys"
  let ?r = "Suc (length h)"
  let ?h = "h @ [PyList (xs @ ys), Conditions (xs @ ys)]"
  have ia: "list_items (deref h a) = Some xs" and ib: "list_items (deref h b) = Some ys"
    by (simp_all add: a b)
  then have va: "a < length h" and vb: "b < length h"
    by (auto dest: list_items_valid)
  have res: "Conditions_add h a b = (Inr ?r, ?h)"
    using ia ib by (rule Conditions_add_result)
  have new: "deref ?h ?r = Conditions (xs @ ys)"
    by (rule deref_append2_new)
  have call: "py_call ?h ?r inst user w = Conditions_call (xs @ ys) inst user w"
    by (simp add: py_call_def new)
  have olda: "deref ?h a = Conditions xs" using va a by (simp add: deref_append2_old)
  have oldb: "deref ?h b = Conditions ys" using vb b by (simp add: deref_append2_old)
  have fresh: "length h \<le> ?r \<and> ?r \<noteq> a \<and> ?r \<noteq> b" using va vb by simp
  from res new call olda oldb fresh show ?thesis by blast
qed

theorem Conditions_add_concatenates_witness:
  "fst (Conditions_add
          [Conditions [log_fail 1 ''a1''],
           Conditions [log_pass 2, log_pass 3, log_fail 4 ''b3'']] 0 1) = Inr 3 \<and>
   deref (snd (Conditions_add
          [Conditions [log_fail 1 ''a1''],
           Conditions [log_pass 2, log_pass 3, log_fail 4 ''b3'']] 0 1)) 3
     = Conditions [log_fail 1 ''a1'', log_pass 2, log_pass 3, log_fail 4 ''b3''] \<and>
   deref (snd (Conditions_add
          [Conditions [log_fail 1 ''a1''],
           Conditions [log_pass 2, log_pass 3, log_fail 4 ''b3'']] 0 1)) 0
     = Conditions [log_fail 1 ''a1''] \<and>
   deref (snd (Conditions_add
          [Conditions [log_fail 1 ''a1''],
           Conditions [log_pass 2, log_pass 3, log_fail 4 ''b3'']] 0 1)) 1
     = Conditions [log_pass 2, log_pass 3, log_fail 4 ''b3''] \<and>
   py_call (snd (Conditions_add
          [Conditions [log_fail 1 ''a1''],
           Conditions [log_pass 2, log_pass 3, log_fail 4 ''b3'']] 0 1)) 3 () () []
     = (Inl (ConditionFailed ''a1''), [1])"
proof -
  let ?A = "[log_fail 1 ''a1'']"
  let ?B = "[log_pass 2, log_pass 3, log_fail 4 ''b3'']"
  let ?h = "[Conditions ?A, Conditions ?B]"
  have a: "deref ?h 0 = Conditions ?A" by (simp add: deref_def)
  have b: "deref ?h 1 = Conditions ?B" by (simp add: deref_def)
  from Conditions_add_concatenates [OF a b, of "()" "()" "[]"]
  obtain r h' where add: "Conditions_add ?h 0 1 = (Inr r, h')"
    and new: "deref h' r = Conditions (?A @ ?B)"
    and call: "py_call h' r () () [] = Conditions_call (?A @ ?B) () () []"
    and olda: "deref h' 0 = Conditions ?A"
    and oldb: "deref h' 1 = Conditions ?B"
    by blast
  have "fst (Conditions_add ?h 0 1) = Inr 3"
    by (simp add: Conditions_add_def list_add_def Conditions_new_def alloc_def deref_def)
  with add have r: "r = 3" by simp
  have run: "Conditions_call (?A @ ?B) () () [] = (Inl (ConditionFailed ''a1''), [1])"
    by (simp add: log_fail_def)
  from add new call olda oldb r run show ?thesis by simp
qed

text \<open>
  Claim C3. \<open>as_bool\<close> returns \<open>False\<close> exactly when the call of the chain raises
  \<^verbatim>\<open>ConditionFailed\<close>, returns \<open>True\<close> exactly when every guard passes, never raises
  \<^verbatim>\<open>ConditionFailed\<close>, and, the guards being free of side effects, leaves the world
  (the instance and its field with it) as it was.
\<close>

theorem as_bool_is_boolean_view:
  "(fst (Conditions_as_bool c inst user w) = Inr False \<longleftrightarrow>
      (\<exists>reason. fst (Conditions_call c inst user w) = Inl (ConditionFailed reason))) \<and>
   (fst (Conditions_as_bool c inst user w) = Inr True \<longleftrightarrow>
      (\<forall>j<length c. passes (outcome_at c inst user w j))) \<and>
   (\<forall>reason. fst (Conditions_as_bool c inst user w) \<noteq> Inl (ConditionFailed reason)) \<and>
   ((\<forall>g\<in>set c. \<forall>w'. snd (g inst user w') = w')
      \<longrightarrow> snd (Conditions_as_bool c inst user w) = w)"
proof (intro conjI)
  show "fst (Conditions_as_bool c inst user w) = Inr False \<longleftrightarrow>
      (\<exists>reason. fst (Conditions_call c inst user w) = Inl (ConditionFailed reason))"
    unfolding Conditions_as_bool_def
    by (cases "Conditions_call c inst user w") (auto split: sum.splits exc.splits)
next
  have "fst (Conditions_as_bool c inst user w) = Inr True \<longleftrightarrow>
      (\<exists>w'. Conditions_call c inst user w = (Inr (), w'))"
    unfolding Conditions_as_bool_def
    by (cases "Conditions_call c inst user w") (auto split: sum.splits exc.splits)
  then show "fst (Conditions_as_bool c inst user w) = Inr True \<longleftrightarrow>
      (\<forall>j<length c. passes (outcome_at c inst user w j))"
    by (simp only: call_ok_iff)
next
  show "\<forall>reason. fst (Conditions_as_bool c inst user w) \<noteq> Inl (ConditionFailed reason)"
    unfolding Conditions_as_bool_def
    by (cases "Conditions_call c inst user w") (auto split: sum.splits exc.splits)
next
  show "(\<forall>g\<in>set c. \<forall>w'. snd (g inst user w') = w')
      \<longrightarrow> snd (Conditions_as_bool c inst user w) = w"
    by (simp add: as_bool_world call_pure)
qed

theorem as_bool_is_boolean_view_witness:
  "Conditions_as_bool [guard_allow, guard_deny ''not owner'', guard_allow] () () (7::nat)
     = (Inr False, 7) \<and>
   Conditions_as_bool [guard_allow, guard_allow] () () (7::nat) = (Inr True, 7)"
proof -
  let ?c = "[guard_allow, guard_deny ''not owner'', guard_allow] :: (unit, unit, unit, nat) guard list"
  let ?d = "[guard_allow, guard_allow] :: (unit, unit, unit, nat) guard list"
  have pure_c: "\<forall>g\<in>set ?c. \<forall>w'. snd (g () () w') = w'"
    by (simp add: guard_allow_def guard_deny_def)
  have pure_d: "\<forall>g\<in>set ?d. \<forall>w'. snd (g () () w') = w'"
    by (simp add: guard_allow_def)
  have fails: "\<exists>reason. fst (Conditions_call ?c () () 7) = Inl (ConditionFailed reason)"
    by (simp add: guard_allow_def guard_deny_def)
  have passes: "\<forall>j<length ?d. passes (outcome_at ?d () () 7 j)"
    by (simp add: outcome_at_def guard_allow_def less_Suc_eq)
  have c: "fst (Conditions_as_bool ?c () () 7) = Inr False \<and> snd (Conditions_as_bool ?c () () 7) = 7"
    using as_bool_is_boolean_view [of ?c "()" "()" 7] pure_c fails by blast
  have d: "fst (Conditions_as_bool ?d () () 7) = Inr True \<and> snd (Conditions_as_bool ?d () () 7) = 7"
    using as_bool_is_boolean_view [of ?d "()" "()" 7] pure_d passes by blast
  show ?thesis using c d by (simp add: prod_eq_iff)
qed

text \<open>
  Claim C4. Read on the class (\<^verbatim>\<open>instance is None\<close>) the descriptor returns the chain
  itself, and read on an instance it should return a bound chain for that instance. The
  test in \<^verbatim>\<open>__get__\<close> is the truth value of the instance, not \<^verbatim>\<open>instance is None\<close>: for an
  instance whose class defines \<^verbatim>\<open>__len__\<close> and whose length is 0 the descriptor returns
  the unbound chain. The theorem evaluates \<^verbatim>\<open>__get__\<close> at such an instance; the lemmas
  \<open>Conditions_get_class\<close> and \<open>Conditions_get_true_instance\<close> above are the two cases
  in which the code does what the claim says.
\<close>

theorem Conditions_get_false_instance:
  "Conditions_get 0 (Some \<lparr>dunder_bool = None, dunder_len = Some 0, payload = ''cart''\<rparr>)
     = Unbound 0"
  by (simp add: Conditions_get_def py_truth_def)

text \<open>
  Claim C5. The bound chain built from the chain \<open>c\<close> and the instance \<open>inst\<close> is \<open>c\<close>
  with the instance applied: in every store, calling it with \<open>user\<close> gives the result
  and the world of calling \<open>c\<close> with \<open>inst\<close> and \<open>user\<close>, and its \<open>as_bool\<close> is that of
  \<open>c\<close>.
\<close>

theorem BoundConditions_is_thin_adapter:
  "BoundConditions_call h (BoundConditions_init c inst) user w = py_call h c inst user w \<and>
   BoundConditions_as_bool h (BoundConditions_init c inst) user w = py_as_bool h c inst user w"
  by (simp add: BoundConditions_call_def BoundConditions_as_bool_def BoundConditions_init_def)

text \<open>
  Claim C6. As amended: concatenation never changes an object the store holds and, for
  two chains, always yields a new chain. After \<^verbatim>\<open>a + b\<close> every reference of the old
  store reads as before; a concatenation that raises leaves the store as it was and one
  that returns gives a reference the store did not hold; and when \<open>a\<close> and \<open>b\<close> are
  chains the concatenation returns, and the new object is a \<^verbatim>\<open>Conditions\<close> with the
  guards of \<open>a\<close> followed by those of \<open>b\<close>. (The chain is a Python list: the claim as
  stated, that no operation of its public interface changes its guards, fails for the
  inherited \<^verbatim>\<open>append\<close>, as the example after the theorem shows.)
\<close>

theorem Conditions_add_keeps_store:
  "(\<forall>p<length h. deref (snd (Conditions_add h a b)) p = deref h p) \<and>
   (case fst (Conditions_add h a b) of
      Inl e \<Rightarrow> snd (Conditions_add h a b) = h
    | Inr r \<Rightarrow> length h \<le> r \<and> r < length (snd (Conditions_add h a b))) \<and>
   (deref h a = Conditions xs \<and> deref h b = Conditions ys \<longrightarrow>
      (\<exists>r. fst (Conditions_add h a b) = Inr r \<and> length h \<le> r \<and>
           deref (snd (Conditions_add h a b)) r = Conditions (xs @ ys)))"
proof -
  have frame: "(\<forall>p<length h. deref (snd (Conditions_add h a b)) p = deref h p) \<and>
     (case fst (Conditions_add h a b) of
        Inl e \<Rightarrow> snd (Conditions_add h a b) = h
      | Inr r \<Rightarrow> length h \<le> r \<and> r < length (snd (Conditions_add h a b)))"
  proof (cases "list_items (deref h a)")
    case None
    then have "Conditions_add h a b = (Inl (OtherError ''TypeError''), h)"
      by (simp add: Conditions_add_error)
    then show ?thesis by simp
  next
    case (Some us)
    note a = this
    show ?thesis
    proof (cases "list_items (deref h b)")
      case None
      then have "Conditions_add h a b = (Inl (OtherError ''TypeError''), h)"
        by (simp add: Conditions_add_error)
      then show ?thesis by simp
    next
      case (Some vs)
      with a have "Conditions_add h a b =
          (Inr (Suc (length h)), h @ [PyList (us @ vs), Conditions (us @ vs)])"
        by (rule Conditions_add_result)
      then show ?thesis by (simp add: deref_append2_old)
    qed
  qed
  have new: "\<exists>r. fst (Conditions_add h a b) = Inr r \<and> length h \<le> r \<and>
           deref (snd (Conditions_add h a b)) r = Conditions (xs @ ys)"
    if ab: "deref h a = Conditions xs \<and> deref h b = Conditions ys"
  proof -
    from ab have "list_items (deref h a) = Some xs" and "list_items (deref h b) = Some ys"
      by simp_all
    then have res: "Conditions_add h a b =
        (Inr (Suc (length h)), h @ [PyList (xs @ ys), Conditions (xs @ ys)])"
      by (rule Conditions_add_result)
    have "fst (Conditions_add h a b) = Inr (Suc (length h)) \<and> length h \<le> Suc (length h) \<and>
        deref (snd (Conditions_add h a b)) (Suc (length h)) = Conditions (xs @ ys)"
      by (simp add: res deref_append2_new)
    then show ?thesis ..
  qed
  from frame new show ?thesis by blast
qed

theorem Conditions_add_keeps_store_witness:
  "deref (snd (Conditions_add [Conditions [log_pass 1]] 0 0)) 0 = Conditions [log_pass 1] \<and>
   fst (Conditions_add [Conditions [log_pass 1]] 0 0) = Inr 2 \<and>
   deref (snd (Conditions_add [Conditions [log_pass 1]] 0 0)) 2
     = Conditions [log_pass 1, log_pass 1]"
proof -
  let ?h = "[Conditions [log_pass 1]]"
  have p: "(0::nat) < length ?h" by simp
  have old: "deref ?h 0 = Conditions [log_pass 1]" by (simp add: deref_def)
  have res: "fst (Conditions_add ?h 0 0) = Inr 2"
    by (simp add: Conditions_add_def list_add_def Conditions_new_def alloc_def deref_def)
  from Conditions_add_keeps_store [of ?h 0 0 "[log_pass 1]" "[log_pass 1]"] p
  have kept: "deref (snd (Conditions_add ?h 0 0)) 0 = deref ?h 0" by blast
  from Conditions_add_keeps_store [of ?h 0 0 "[log_pass 1]" "[log_pass 1]"] old
  obtain r where r: "fst (Conditions_add ?h 0 0) = Inr r"
    and new: "deref (snd (Conditions_add ?h 0 0)) r = Conditions ([log_pass 1] @ [log_pass 1])"
    by blast
  from r res have "r = 2" by simp
  with new kept old res show ?thesis by simp
qed

text \<open>
  The inherited \<^verbatim>\<open>append\<close> changes the guards of an existing chain in place.
\<close>

theorem append_mutates_chain:
  "deref (snd (list_append [Conditions [log_pass 1]] 0 (log_fail 2 ''locked''))) 0
     \<noteq> deref [Conditions [log_pass 1]] 0"
  by (simp add: list_append_def deref_def)

text \<open>
  Claim C9. An empty chain succeeds for every instance and actor: the call raises
  nothing and leaves the world as it was, and \<open>as_bool\<close> returns \<open>True\<close>.
\<close>

theorem empty_chain_succeeds:
  "Conditions_call [] inst user w = (Inr (), w) \<and>
   Conditions_as_bool [] inst user w = (Inr True, w)"
  by (simp add: Conditions_as_bool_def)

text \<open>
  Claim C10. \<open>as_bool\<close> catches \<^verbatim>\<open>ConditionFailed\<close> only. When the first guard that
  raises raises another exception, \<open>as_bool\<close> raises that exception, after the guards
  up to that one have run, and returns no boolean.
\<close>

theorem as_bool_propagates_other_errors:
  "k < length c \<Longrightarrow> (\<forall>j<k. passes (outcome_at c inst user w j)) \<Longrightarrow>
   outcome_at c inst user w k = Inl (OtherError x) \<Longrightarrow>
   Conditions_as_bool c inst user w =
     (Inl (OtherError x), effects (take (Suc k) c) inst user w)"
proof -
  assume "k < length c" "\<forall>j<k. passes (outcome_at c inst user w j)"
    "outcome_at c inst user w k = Inl (OtherError x)"
  then have "Conditions_call c inst user w =
      (Inl (OtherError x), effects (take (Suc k) c) inst user w)"
    by (rule call_first_failure)
  then show ?thesis by (simp add: Conditions_as_bool_def)
qed

theorem as_bool_propagates_other_errors_witness:
  "Conditions_as_bool [log_pass 1, log_raise 2 ''ValueError'', log_fail 3 ''locked'']
     () () [] = (Inl (OtherError ''ValueError''), [1, 2])"
proof -
  let ?c = "[log_pass 1, log_raise 2 ''ValueError'', log_fail 3 ''locked'']"
  have len: "Suc 0 < length ?c" by simp
  have before: "\<forall>j<Suc 0. passes (outcome_at ?c () () [] j)"
    by (simp add: outcome_at_def log_pass_def)
  have at: "outcome_at ?c () () [] (Suc 0) = Inl (OtherError ''ValueError'')"
    by (simp add: outcome_at_def log_pass_def log_raise_def)
  have eff: "effects (take (Suc (Suc 0)) ?c) () () [] = [1, 2]"
    by (simp add: log_pass_def log_raise_def)
  show ?thesis
    using as_bool_propagates_other_errors [OF len before at] eff by simp
qed

section \<open>The claims on the transition engine\<close>

text \<open>
  Claim C7. For a protected field a direct write fails with
  \<^verbatim>\<open>ProtectedWriteForbidden\<close> and leaves the instance, and so the stored value, as it was;
  reading does not depend on the protection; and a transition attempt that finds its
  descriptor, passes the permission gate and the guards, and whose action completes,
  succeeds and stores the target state.
\<close>

theorem protected_field_write:
  "protected fld \<Longrightarrow>
   direct_set fld inst v = (Inl ProtectedWriteForbidden, inst) \<and>
   get_state fld (snd (direct_set fld inst v)) = get_state fld inst \<and>
   get_state fld inst = get_state (fld\<lparr>protected := False\<rparr>) inst \<and>
   (find_transition reg fld (get_state fld inst) nm = Some d \<and>
    permission_gate check d actor inst \<and>
    (\<forall>j<length (t_conditions d). passes (outcome_at (t_conditions d) inst actor () j)) \<and>
    t_action d inst = Inr r
    \<longrightarrow> fst (attempt check reg fld inst nm actor) = Inr r \<and>
        get_state fld (snd (attempt check reg fld inst nm actor)) = t_target d)"
proof -
  assume p: "protected fld"
  have w: "direct_set fld inst v = (Inl ProtectedWriteForbidden, inst)"
    using p by (simp add: direct_set_def)
  have u: "get_state fld (snd (direct_set fld inst v)) = get_state fld inst"
    using w by simp
  have r: "get_state fld inst = get_state (fld\<lparr>protected := False\<rparr>) inst"
    by (simp add: get_state_def split: option.splits)
  have t: "fst (attempt check reg fld inst nm actor) = Inr r \<and>
        get_state fld (snd (attempt check reg fld inst nm actor)) = t_target d"
    if h: "find_transition reg fld (get_state fld inst) nm = Some d \<and>
      permission_gate check d actor inst \<and>
      (\<forall>j<length (t_conditions d). passes (outcome_at (t_conditions d) inst actor () j)) \<and>
      t_action d inst = Inr r"
  proof -
    from h have "Conditions_call (t_conditions d) inst actor () =
        (Inr (), effects (t_conditions d) inst actor ())"
      by (simp add: call_all_pass)
    with h have "attempt check reg fld inst nm actor =
        (Inr r, engine_set fld inst (t_target d))"
      by (simp add: attempt_def)
    then show ?thesis by (simp add: engine_set_def get_state_def)
  qed
  from w u r t show ?thesis by blast
qed

theorem protected_field_write_witness:
  "get_state status_field Map.empty = ''new'' \<and>
   direct_set status_field Map.empty ''change'' = (Inl ProtectedWriteForbidden, Map.empty) \<and>
   fst (attempt grant_all [publish_protected] status_field Map.empty ''publish'' ()) = Inr () \<and>
   get_state status_field
     (snd (attempt grant_all [publish_protected] status_field Map.empty ''publish'' ()))
     = ''published''"
proof -
  have p: "protected status_field" by (simp add: status_field_def)
  have new: "get_state status_field Map.empty = ''new''"
    unfolding get_state_def status_field_def by simp
  have f: "find_transition [publish_protected] status_field (get_state status_field Map.empty)
      ''publish'' = Some publish_protected"
    unfolding new by (simp add: find_transition_def accepts_def publish_protected_def status_field_def)
  have g: "permission_gate grant_all publish_protected () Map.empty"
    by (simp add: permission_gate_def publish_protected_def)
  have c: "\<forall>j<length (t_conditions publish_protected).
      passes (outcome_at (t_conditions publish_protected) Map.empty () () j)"
    by (simp add: publish_protected_def)
  have a: "t_action publish_protected Map.empty = Inr ()"
    by (simp add: publish_protected_def action_pass_def)
  have t: "t_target publish_protected = ''published''"
    by (simp add: publish_protected_def)
  from protected_field_write [OF p, of Map.empty "''change''" "[publish_protected]" "''publish''"
      publish_protected grant_all "()" "()"] f g c a
  have "direct_set status_field Map.empty ''change'' = (Inl ProtectedWriteForbidden, Map.empty) \<and>
     fst (attempt grant_all [publish_protected] status_field Map.empty ''publish'' ()) = Inr () \<and>
     get_state status_field
       (snd (attempt grant_all [publish_protected] status_field Map.empty ''publish'' ()))
       = t_target publish_protected"
    by blast
  with new t show ?thesis by simp
qed

text \<open>
  Claim C8. When the descriptor found declares an error-target state, the permission
  gate and the guards pass, and the action raises, the attempt reports the failure of
  the action and the stored state of the field is the error-target state.
\<close>

theorem error_target_committed:
  "find_transition reg fld (get_state fld inst) nm = Some d \<Longrightarrow>
   permission_gate check d actor inst \<Longrightarrow>
   (\<forall>j<length (t_conditions d). passes (outcome_at (t_conditions d) inst actor () j)) \<Longrightarrow>
   t_on_error d = Some es \<Longrightarrow>
   t_action d inst = Inl x \<Longrightarrow>
   fst (attempt check reg fld inst nm actor) = Inl (ActionFailed x) \<and>
   get_state fld (snd (attempt check reg fld inst nm actor)) = es"
proof -
  assume f: "find_transition reg fld (get_state fld inst) nm = Some d"
    and g: "permission_gate check d actor inst"
    and c: "\<forall>j<length (t_conditions d). passes (outcome_at (t_conditions d) inst actor () j)"
    and e: "t_on_error d = Some es"
    and a: "t_action d inst = Inl x"
  from c have "Conditions_call (t_conditions d) inst actor () =
      (Inr (), effects (t_conditions d) inst actor ())"
    by (rule call_all_pass)
  with f g e a have "attempt check reg fld inst nm actor =
      (Inl (ActionFailed x), engine_set fld inst es)"
    by (simp add: attempt_def)
  then show ?thesis by (simp add: engine_set_def get_state_def)
qed

theorem error_target_committed_witness:
  "get_state state_field Map.empty = ''new'' \<and>
   fst (attempt grant_all [publish_failing] state_field Map.empty ''publish'' ())
     = Inl (ActionFailed (OtherError ''RuntimeError'')) \<and>
   get_state state_field
     (snd (attempt grant_all [publish_failing] state_field Map.empty ''publish'' ()))
     = ''failed''"
proof -
  have new: "get_state state_field Map.empty = ''new''"
    unfolding get_state_def state_field_def by simp
  have f: "find_transition [publish_failing] state_field (get_state state_field Map.empty)
      ''publish'' = Some publish_failing"
    unfolding new by (simp add: find_transition_def accepts_def publish_failing_def state_field_def)
  have g: "permission_gate grant_all publish_failing () Map.empty"
    by (simp add: permission_gate_def publish_failing_def grant_all_def)
  have c: "\<forall>j<length (t_conditions publish_failing).
      passes (outcome_at (t_conditions publish_failing) Map.empty () () j)"
    by (simp add: publish_failing_def outcome_at_def guard_allow_def)
  have e: "t_on_error publish_failing = Some ''failed''"
    by (simp add: publish_failing_def)
  have a: "t_action publish_failing Map.empty = Inl (OtherError ''RuntimeError'')"
    by (simp add: publish_failing_def action_raise_def)
  from error_target_committed [OF f g c e a] new show ?thesis by simp
qed

end
